theory Spec2Isabelle
  imports Complex_Main "HOL-Library.AList" "HOL-Library.Log_Nat"
begin

section \<open>The world viewer (main.js)\<close>

text \<open>
  The viewer keeps its state in module-level variables and changes them from event
  handlers.  The model passes that state around as one record.  JavaScript numbers are
  real numbers in the model; infinities and NaN are not part of it.  The arithmetic of the
  interpolation is the arithmetic of binary64, every operation rounded to the nearest
  double.  The hit test is computed in exact arithmetic, and where it divides by a
  viewport dimension, the case of a zero divisor is written out.  Entity ids are integers,
  as the removal loop of the live update presupposes when it reads the property names
  back with \<open>parseInt\<close>.
\<close>

subsection \<open>Data\<close>

text \<open>An entity snapshot as served by \<open>/api/world/critters\<close>.\<close>

record critter =
  critter_id :: int
  critter_x :: real
  critter_y :: real
  diet :: string
  health :: real
  max_health :: real
  energy :: real
  hunger :: real
  thirst :: real
  age :: int

text \<open>One value of \<open>critterDisplayData\<close>.\<close>

record display_record =
  currentX :: real
  currentY :: real
  targetX :: real
  targetY :: real
  critter :: critter

text \<open>\<open>currentView\<close>: the source's fields \<open>x\<close>, \<open>y\<close>, \<open>w\<close>, \<open>h\<close>.\<close>

record view =
  view_x :: real
  view_y :: real
  view_w :: real
  view_h :: real

record tile =
  terrain :: string
  tile_height :: real
  food_available :: real

text \<open>What a rejected promise or a \<open>throw\<close> carries into the \<open>catch\<close> block.\<close>

datatype js_error = Error string | TypeError string

text \<open>
  The module state.  \<open>critterDisplayData\<close> is a JavaScript object used as a dictionary;
  it is modelled by the list of its entries, in which a key occurs once.  The order of the
  list stands for the order in which \<open>for (const id in critterDisplayData)\<close> visits the
  entries; no result below depends on which order that is.  \<open>statsContent\<close> is the critter
  whose details \<open>updateStatsPanel\<close> rendered last (\<open>None\<close>: the default message),
  \<open>console\<close> collects the arguments of \<open>console.error\<close>, \<open>pageUrl\<close> is the query
  pushed by \<open>history.pushState\<close>.
\<close>

record viewer =
  currentTerrainData :: "tile list option"
  currentView :: view
  critterDisplayData :: "(int \<times> display_record) list"
  selectedCritter :: "critter option"
  statsContent :: "critter option"
  console :: "js_error list"
  pageUrl :: "view option"
  canvas_width :: real
  canvas_height :: real

definition CRITTER_DRAW_RADIUS :: real where
  "CRITTER_DRAW_RADIUS = 3"

definition CRITTER_CLICK_TOLERANCE :: real where
  "CRITTER_CLICK_TOLERANCE = 6"

subsection \<open>Handlers\<close>

text \<open>The object literal built for a critter that has no entry yet.\<close>

definition new_record :: "critter \<Rightarrow> display_record" where
  "new_record c =
     \<lparr>currentX = critter_x c, currentY = critter_y c,
      targetX = critter_x c, targetY = critter_y c, critter = c\<rparr>"

text \<open>\<open>updateStatsPanel\<close> renders the selected critter, or the default message.\<close>

definition updateStatsPanel :: "viewer \<Rightarrow> viewer" where
  "updateStatsPanel s = s\<lparr>statsContent := selectedCritter s\<rparr>"

text \<open>
  The first loop of \<open>handleLiveUpdate\<close>: delete every entry whose id is not in
  \<open>liveCritterIds\<close>.
\<close>

definition remove_dead ::
  "critter list \<Rightarrow> (int \<times> display_record) list \<Rightarrow> (int \<times> display_record) list" where
  "remove_dead critters d = filter (\<lambda>(i, r). i \<in> set (map critter_id critters)) d"

text \<open>The three assignments made to an entry that exists already.\<close>

definition retarget :: "critter \<Rightarrow> display_record \<Rightarrow> display_record" where
  "retarget c r = r\<lparr>targetX := critter_x c, targetY := critter_y c, critter := c\<rparr>"

text \<open>
  The body of the second loop: an existing entry gets a new target and snapshot, a missing
  one is created.
\<close>

definition merge_critter ::
  "critter \<Rightarrow> (int \<times> display_record) list \<Rightarrow> (int \<times> display_record) list" where
  "merge_critter c d =
     (case map_of d (critter_id c) of
        Some r \<Rightarrow> AList.update (critter_id c) (retarget c r) d
      | None \<Rightarrow> AList.update (critter_id c) (new_record c) d)"

definition reconcile ::
  "critter list \<Rightarrow> (int \<times> display_record) list \<Rightarrow> (int \<times> display_record) list" where
  "reconcile critters d = fold merge_critter critters (remove_dead critters d)"

text \<open>
  \<open>handleLiveUpdate\<close>.  The outcome of \<open>await fetchCritters(currentView)\<close> is a
  parameter: \<open>Inl e\<close> when the promise rejects (network failure, or a response that is not
  ok), \<open>Inr critters\<close> with the list \<open>critterData.critters\<close> otherwise.  The state is
  the one in which the handler resumes; \<open>currentTerrainData\<close> is never reset to null, so
  the guard evaluated before the fetch still holds then.  The closing call of
  \<open>updateSeasonDisplay\<close> touches only the season banner and catches its own errors.
\<close>

definition handleLiveUpdate :: "viewer \<Rightarrow> js_error + critter list \<Rightarrow> viewer" where
  "handleLiveUpdate s fetched =
     (if currentTerrainData s = None then s
      else case fetched of
             Inl e \<Rightarrow> s\<lparr>console := console s @ [e]\<rparr>
           | Inr critters \<Rightarrow>
               s\<lparr>critterDisplayData := reconcile critters (critterDisplayData s)\<rparr>)"

text \<open>
  \<open>handleManualUpdate\<close>: the view and the page URL are written first, then the terrain
  is fetched (\<open>fetchTerrain\<close> assigns \<open>currentTerrainData\<close> itself when it succeeds), then
  the critters; one \<open>catch\<close> block logs whichever fetch failed.
\<close>

definition handleManualUpdate ::
  "viewer \<Rightarrow> view \<Rightarrow> js_error + tile list \<Rightarrow> js_error + critter list \<Rightarrow> viewer" where
  "handleManualUpdate s inputs terrainFetched crittersFetched =
     (let s1 = s\<lparr>currentView := inputs, pageUrl := Some inputs\<rparr> in
      case terrainFetched of
        Inl e \<Rightarrow> s1\<lparr>console := console s1 @ [e]\<rparr>
      | Inr tiles \<Rightarrow>
          (let s2 = s1\<lparr>currentTerrainData := Some tiles\<rparr> in
           case crittersFetched of
             Inl e \<Rightarrow> s2\<lparr>console := console s2 @ [e]\<rparr>
           | Inr critters \<Rightarrow>
               s2\<lparr>critterDisplayData :=
                    fold (\<lambda>c d. AList.update (critter_id c) (new_record c) d) critters []\<rparr>))"

subsection \<open>Arithmetic of doubles\<close>

text \<open>
  A double is a number \<open>m * 2 ^ e\<close> with \<open>\<bar>m\<bar> < 2 ^ 53\<close> and \<open>e \<ge> - 1074\<close>.  JavaScript
  computes \<open>+\<close>, \<open>-\<close> and \<open>*\<close> exactly and rounds the result to the nearest double, to
  the one with an even mantissa when two are equally near.  \<open>round_to p n\<close> does this for
  a format with \<open>p\<close> bits of mantissa and least exponent \<open>- n\<close>: the spacing of the format
  around \<open>x\<close> is \<open>2\<close> to the power \<open>ulp_exponent p n x\<close>, and \<open>x\<close> is rounded to a multiple
  of it.  A result of magnitude \<open>2 ^ 1024\<close> or more, which is \<open>Infinity\<close> in JavaScript, is
  outside the model.
\<close>

definition round_even :: "real \<Rightarrow> int" where
  "round_even y =
     (let f = \<lfloor>y\<rfloor> in
      if y - of_int f < 1 / 2 then f
      else if 1 / 2 < y - of_int f then f + 1
      else if even f then f else f + 1)"

definition ulp_exponent :: "nat \<Rightarrow> nat \<Rightarrow> real \<Rightarrow> int" where
  "ulp_exponent p n x = max (bitlen \<lfloor>\<bar>x\<bar> * 2 ^ n\<rfloor> - int p) 0 - int n"

definition round_to :: "nat \<Rightarrow> nat \<Rightarrow> real \<Rightarrow> real" where
  "round_to p n x =
     of_int (round_even (x / 2 powi ulp_exponent p n x)) * 2 powi ulp_exponent p n x"

definition round_double :: "real \<Rightarrow> real" where
  "round_double = round_to 53 1074"

text \<open>The value of the literal \<open>0.1\<close>: the double nearest to one tenth.\<close>

definition tenth :: real where
  "tenth = 3602879701896397 / 2 ^ 55"

text \<open>
  \<open>current += (target - current) * 0.1\<close>, for one coordinate: a subtraction, a
  multiplication and an addition, each rounded.
\<close>

definition approach :: "real \<Rightarrow> real \<Rightarrow> real" where
  "approach c t = round_double (c + round_double (round_double (t - c) * tenth))"

subsection \<open>Frames and clicks\<close>

text \<open>The two assignments at the top of the drawing loop of \<open>animationLoop\<close>.\<close>

definition interpolate :: "display_record \<Rightarrow> display_record" where
  "interpolate r =
     r\<lparr>currentX := approach (currentX r) (targetX r),
       currentY := approach (currentY r) (targetY r)\<rparr>"

text \<open>
  One frame.  Drawing on the canvas changes nothing of the modelled state; what remains is
  the interpolation of every entry and the re-synchronisation of the selection, which has
  no \<open>else\<close> branch for an id that is no longer in the dictionary.
\<close>

definition animationLoop :: "viewer \<Rightarrow> viewer" where
  "animationLoop s =
     (let s1 = s\<lparr>critterDisplayData := map (\<lambda>(i, r). (i, interpolate r)) (critterDisplayData s)\<rparr> in
      case selectedCritter s1 of
        None \<Rightarrow> s1
      | Some sel \<Rightarrow>
          (case map_of (critterDisplayData s1) (critter_id sel) of
             None \<Rightarrow> s1
           | Some latestData \<Rightarrow> updateStatsPanel (s1\<lparr>selectedCritter := Some (critter latestData)\<rparr>)))"

text \<open>
  The distance, in canvas pixels, between the pointer and the marker of an entry, as
  computed in \<open>handleCanvasClick\<close>.  Dividing by a zero \<open>w\<close> or \<open>h\<close> gives an infinity or
  NaN in JavaScript, the distance is then not a finite number and both comparisons of the
  loop are false: that case is \<open>None\<close>.
\<close>

definition click_distance :: "viewer \<Rightarrow> real \<Rightarrow> real \<Rightarrow> display_record \<Rightarrow> real option" where
  "click_distance s mouseX mouseY r =
     (if view_w (currentView s) = 0 \<or> view_h (currentView s) = 0 then None
      else
        let tileWidth = canvas_width s / view_w (currentView s);
            tileHeight = canvas_height s / view_h (currentView s);
            startX = view_x (currentView s) - view_w (currentView s) / 2;
            startY = view_y (currentView s) - view_h (currentView s) / 2;
            critterCanvasX = (currentX r - startX) * tileWidth + tileWidth / 2;
            critterCanvasY = (currentY r - startY) * tileHeight + tileHeight / 2
        in Some (sqrt ((critterCanvasX - mouseX)\<^sup>2 + (critterCanvasY - mouseY)\<^sup>2)))"

text \<open>
  One iteration of the search loop; the accumulator is \<open>(closestCritter, minDistance)\<close>,
  with \<open>None\<close> for the initial \<open>Infinity\<close>.
\<close>

definition visit ::
  "(display_record \<Rightarrow> real option) \<Rightarrow> int \<times> display_record \<Rightarrow>
     critter option \<times> real option \<Rightarrow> critter option \<times> real option" where
  "visit distanceOf entry acc =
     (case distanceOf (snd entry) of
        None \<Rightarrow> acc
      | Some distance \<Rightarrow>
          if distance < CRITTER_DRAW_RADIUS + CRITTER_CLICK_TOLERANCE \<and>
             (case snd acc of None \<Rightarrow> True | Some minDistance \<Rightarrow> distance < minDistance)
          then (Some (critter (snd entry)), Some distance)
          else acc)"

definition closest ::
  "(display_record \<Rightarrow> real option) \<Rightarrow> (int \<times> display_record) list \<Rightarrow>
     critter option \<times> real option" where
  "closest distanceOf d = fold (visit distanceOf) d (None, None)"

text \<open>
  \<open>handleCanvasClick\<close>; \<open>mouseX\<close> and \<open>mouseY\<close> are the pointer coordinates relative to
  the canvas.  \<open>fetchAndDisplayEvents\<close> only fills the event log.
\<close>

definition handleCanvasClick :: "viewer \<Rightarrow> real \<Rightarrow> real \<Rightarrow> viewer" where
  "handleCanvasClick s mouseX mouseY =
     (if currentTerrainData s = None then s
      else updateStatsPanel
             (s\<lparr>selectedCritter :=
                  fst (closest (click_distance s mouseX mouseY) (critterDisplayData s))\<rparr>))"

subsection \<open>Auxiliary notions for the statements about the viewer\<close>

text \<open>
  What one fetched critter does to the entry stored under the id \<open>i\<close>: the effect of
  \<open>merge_critter\<close> seen from a single key.
\<close>

definition merge_entry :: "int \<Rightarrow> critter \<Rightarrow> display_record option \<Rightarrow> display_record option" where
  "merge_entry i c m =
     (if critter_id c = i
      then Some (case m of Some r \<Rightarrow> retarget c r | None \<Rightarrow> new_record c)
      else m)"


text \<open>The radius within which a click counts as a hit.\<close>

definition click_radius :: real where
  "click_radius = CRITTER_DRAW_RADIUS + CRITTER_CLICK_TOLERANCE"

text \<open>
  The centre of the disc that \<open>animationLoop\<close> draws for an entry (the first two
  arguments of its call of \<open>ctx.arc\<close>), for a viewport of non-zero width and height.
\<close>

definition arc_center :: "viewer \<Rightarrow> display_record \<Rightarrow> real \<times> real" where
  "arc_center s r =
     (let tileWidth = canvas_width s / view_w (currentView s);
          tileHeight = canvas_height s / view_h (currentView s);
          startX = view_x (currentView s) - view_w (currentView s) / 2;
          startY = view_y (currentView s) - view_h (currentView s) / 2;
          canvasX = (currentX r - startX) * tileWidth;
          canvasY = (currentY r - startY) * tileHeight
      in (canvasX + tileWidth / 2, canvasY + tileHeight / 2))"

text \<open>
  Concrete data for the instances below: the viewport of the specification's end-to-end
  example on a canvas of 800 by 800 pixels, a dictionary of three entries of which the
  first is still moving towards its target, and a later fetch in which critter 2 is gone
  and critter 4 is new.
\<close>

definition sample_critter :: "int \<Rightarrow> real \<Rightarrow> real \<Rightarrow> critter" where
  "sample_critter i px py =
     \<lparr>critter_id = i, critter_x = px, critter_y = py, diet = ''HERBIVORE'', health = 80,
      max_health = 100, energy = 60, hunger = 20, thirst = 10, age = 5\<rparr>"

definition sample_viewer :: "(int \<times> display_record) list \<Rightarrow> critter option \<Rightarrow> viewer" where
  "sample_viewer d sel =
     \<lparr>currentTerrainData = Some [],
      currentView = \<lparr>view_x = 50, view_y = 50, view_w = 20, view_h = 20\<rparr>,
      critterDisplayData = d, selectedCritter = sel, statsContent = sel, console = [],
      pageUrl = None, canvas_width = 800, canvas_height = 800\<rparr>"

definition sample_cache :: "(int \<times> display_record) list" where
  "sample_cache =
     [(1, \<lparr>currentX = 51, currentY = 50, targetX = 52, targetY = 50,
           critter = sample_critter 1 52 50\<rparr>),
      (2, new_record (sample_critter 2 45 48)),
      (3, new_record (sample_critter 3 55 57))]"

definition sample_fetch :: "critter list" where
  "sample_fetch = [sample_critter 1 53 50, sample_critter 3 55 58, sample_critter 4 41 42]"

definition sample_near :: display_record where
  "sample_near =
     \<lparr>currentX = 51, currentY = 50, targetX = 52, targetY = 50, critter = sample_critter 1 52 50\<rparr>"


definition sample_far :: display_record where
  "sample_far =
     \<lparr>currentX = 51 + 1 / 8, currentY = 50, targetX = 51, targetY = 50,
      critter = sample_critter 3 51 50\<rparr>"

section \<open>The statistics page (stats.js)\<close>

subsection \<open>Binning\<close>

text \<open>Decimal notation of an integer, as a template literal prints it.\<close>

definition digit_char :: "nat \<Rightarrow> char" where
  "digit_char n = ''0123456789'' ! n"

fun string_of_nat :: "nat \<Rightarrow> string" where
  "string_of_nat n =
     (if n < 10 then [digit_char n] else string_of_nat (n div 10) @ [digit_char (n mod 10)])"

definition string_of_int :: "int \<Rightarrow> string" where
  "string_of_int i =
     (if i < 0 then CHR ''-'' # string_of_nat (nat (- i)) else string_of_nat (nat i))"

record histogram =
  labels :: "string list"
  data :: "int list"

text \<open>
  The first loop of \<open>createHistogramData\<close>, started at \<open>i\<close>.  The source tests
  \<open>binSize <= 0\<close> once, before the loop; here the test is repeated in the loop condition,
  which is what makes the recursion terminate.
\<close>

function push_bins :: "int \<Rightarrow> int \<Rightarrow> int \<Rightarrow> histogram \<Rightarrow> histogram" where
  "push_bins i binSize maxVal h =
     (if 0 < binSize \<and> i < maxVal
      then push_bins (i + binSize) binSize maxVal
             \<lparr>labels = labels h @ [string_of_int i @ ''-'' @ string_of_int (i + binSize - 1)],
              data = data h @ [0]\<rparr>
      else h)"
  by pat_completeness auto
termination
  by (relation "measure (\<lambda>(i, binSize, maxVal, h). nat (maxVal - i))") auto

text \<open>
  The body of the second loop for one entry \<open>(value, count)\<close> of \<open>rawData\<close>, the key
  already read by \<open>parseInt\<close>.  A negative index passes the test
  \<open>binIndex < data.length\<close>, but the assignment then creates a property named by that
  index and changes no element of the array.
\<close>

definition add_count :: "int \<Rightarrow> int \<times> int \<Rightarrow> int list \<Rightarrow> int list" where
  "add_count binSize entry xs =
     (let binIndex = fst entry div binSize in
      if binIndex < int (length xs)
      then (if 0 \<le> binIndex
            then xs[nat binIndex := xs ! nat binIndex + snd entry]
            else xs)
      else xs)"

definition createHistogramData :: "(int \<times> int) list \<Rightarrow> int \<Rightarrow> int \<Rightarrow> histogram" where
  "createHistogramData rawData binSize maxVal =
     (if binSize \<le> 0 then \<lparr>labels = [], data = []\<rparr>
      else
        let h = push_bins 0 binSize maxVal \<lparr>labels = [], data = []\<rparr>
        in h\<lparr>data := fold (add_count binSize) rawData (data h)\<rparr>)"

subsection \<open>Colouring the bars\<close>

text \<open>
  Numbers that come out of \<open>parseInt\<close> or out of the conversion of a string are integers
  or NaN; NaN is \<open>None\<close>, and a comparison with NaN is false.
\<close>

datatype bar_color = okColor | warningColor | criticalColor

definition js_le :: "int option \<Rightarrow> int option \<Rightarrow> bool" where
  "js_le a b = (case (a, b) of (Some m, Some n) \<Rightarrow> m \<le> n | _ \<Rightarrow> False)"

definition js_ge :: "int option \<Rightarrow> int option \<Rightarrow> bool" where
  "js_ge a b = (case (a, b) of (Some m, Some n) \<Rightarrow> n \<le> m | _ \<Rightarrow> False)"

text \<open>
  The colour that \<open>drawDistributionChart\<close> gives to a bar, from
  \<open>lowerBound = parseInt(label.split("-")[0])\<close> on.
\<close>

definition drawDistributionChart_color ::
  "bool \<Rightarrow> int option \<Rightarrow> int option \<Rightarrow> int option \<Rightarrow> bar_color" where
  "drawDistributionChart_color lowIsBad criticalThreshold warningThreshold lowerBound =
     (if lowIsBad
      then (if js_le lowerBound criticalThreshold then criticalColor
            else if js_le lowerBound warningThreshold then warningColor
            else okColor)
      else (if js_ge lowerBound criticalThreshold then criticalColor
            else if js_ge lowerBound warningThreshold then warningColor
            else okColor))"

text \<open>
  The number that a comparison such as \<open>label <= CRITICAL_ENERGY\<close> makes of a string
  operand.  The model covers the strings written with decimal digits and signs, which
  include all bin labels: the empty string is 0, an optionally signed sequence of digits
  is its value, anything else written with these characters is NaN.  (Strings with white
  space, a decimal point, an exponent or a radix prefix are not labels of bins and are
  not modelled.)
\<close>

definition is_digit :: "char \<Rightarrow> bool" where
  "is_digit c = (c \<in> set ''0123456789'')"

definition digit_value :: "char \<Rightarrow> nat" where
  "digit_value c = length (takeWhile (\<lambda>d. d \<noteq> c) ''0123456789'')"

definition decimal_value :: "string \<Rightarrow> nat" where
  "decimal_value ds = foldl (\<lambda>n c. 10 * n + digit_value c) 0 ds"

definition js_StringToNumber :: "string \<Rightarrow> int option" where
  "js_StringToNumber s =
     (case s of
        [] \<Rightarrow> Some 0
      | c # cs \<Rightarrow>
          if c = CHR ''-'' \<and> cs \<noteq> [] \<and> list_all is_digit cs then Some (- int (decimal_value cs))
          else if c = CHR ''+'' \<and> cs \<noteq> [] \<and> list_all is_digit cs then Some (int (decimal_value cs))
          else if list_all is_digit s then Some (int (decimal_value s))
          else None)"

text \<open>
  The \<open>backgroundColor\<close> mapping of the energy chart in the version of
  \<open>fetchAndDrawHistoryCharts\<close> that bins with \<open>createHistogramData\<close>; the three
  results are the entries \<open>good\<close>, \<open>warn\<close> and \<open>crit\<close> of a palette of \<open>COLORS\<close>.
\<close>

datatype shade = good | warn | crit

definition energy_backgroundColor :: "int option \<Rightarrow> int option \<Rightarrow> string \<Rightarrow> shade" where
  "energy_backgroundColor CRITICAL_ENERGY ENERGY_TO_START_RESTING label =
     (if js_le (js_StringToNumber label) CRITICAL_ENERGY then crit
      else if js_le (js_StringToNumber label) ENERGY_TO_START_RESTING then warn
      else good)"

subsection \<open>Quantities the statements about binning refer to\<close>

text \<open>
  The label of the \<open>k\<close>-th bin pushed by a loop that starts at \<open>i\<close>, the number of bins,
  \<open>ceil(maxVal / binSize)\<close>, and two sums over the entries of the input: the counts of the
  values below a bound, and of the values in a half-open range.
\<close>

definition bin_label :: "int \<Rightarrow> int \<Rightarrow> nat \<Rightarrow> string" where
  "bin_label binSize i k =
     string_of_int (i + binSize * int k) @ ''-'' @ string_of_int (i + binSize * int k + binSize - 1)"

definition bin_count :: "int \<Rightarrow> int \<Rightarrow> nat" where
  "bin_count binSize maxVal = nat \<lceil>real_of_int maxVal / real_of_int binSize\<rceil>"

definition counts_below :: "int \<Rightarrow> (int \<times> int) list \<Rightarrow> int" where
  "counts_below bound rawData = sum_list (map snd (filter (\<lambda>(v, c). v < bound) rawData))"

definition counts_between :: "int \<Rightarrow> int \<Rightarrow> (int \<times> int) list \<Rightarrow> int" where
  "counts_between lo hi rawData =
     sum_list (map snd (filter (\<lambda>(v, c). lo \<le> v \<and> v < hi) rawData))"

section \<open>Properties of the viewer\<close>

subsection \<open>The dictionary after a live update\<close>

lemma merge_entry_match:
  "critter_id c = i \<Longrightarrow>
   merge_entry i c m = Some (case m of Some r \<Rightarrow> retarget c r | None \<Rightarrow> new_record c)"
  by (simp add: merge_entry_def)

lemma merge_entry_other: "critter_id c \<noteq> i \<Longrightarrow> merge_entry i c m = m"
  by (simp add: merge_entry_def)

lemma find_snoc:
  "find P (xs @ [x]) = (case find P xs of None \<Rightarrow> (if P x then Some x else None) | Some y \<Rightarrow> Some y)"
  by (induction xs) simp_all

lemma retarget_retarget: "retarget c (retarget c' r) = retarget c r"
  by (simp add: retarget_def)

lemma retarget_new_record: "retarget c (new_record c) = new_record c"
  by (simp add: retarget_def new_record_def)

lemma map_of_merge_critter:
  "map_of (merge_critter c d) i = merge_entry i c (map_of d i)"
  by (simp add: merge_critter_def merge_entry_def update_conv' split: option.split)

lemma map_of_fold_merge_critter:
  "map_of (fold merge_critter cs d) i = fold (merge_entry i) cs (map_of d i)"
  by (induction cs arbitrary: d) (simp_all add: map_of_merge_critter)

lemma map_of_remove_dead:
  "map_of (remove_dead cs d) i = (if i \<in> critter_id ` set cs then map_of d i else None)"
  by (induction d) (auto simp add: remove_dead_def)

lemma map_of_reconcile:
  "map_of (reconcile cs d) i =
     fold (merge_entry i) cs (if i \<in> critter_id ` set cs then map_of d i else None)"
  by (simp add: reconcile_def map_of_fold_merge_critter map_of_remove_dead)

lemma fold_merge_entry_absent:
  "i \<notin> critter_id ` set cs \<Longrightarrow> fold (merge_entry i) cs m = m"
  by (induction cs arbitrary: m) (auto simp add: merge_entry_other)

lemma fold_merge_entry_Some:
  "fold (merge_entry i) cs (Some r) =
     Some (case find (\<lambda>c. critter_id c = i) (rev cs) of None \<Rightarrow> r | Some c \<Rightarrow> retarget c r)"
proof (induction cs arbitrary: r)
  case Nil
  then show ?case by simp
next
  case (Cons a cs)
  show ?case
    by (cases "critter_id a = i")
       (simp_all add: Cons.IH merge_entry_match merge_entry_other find_snoc retarget_retarget
          split: option.split)
qed

lemma fold_merge_entry_None:
  "\<exists>r. fold (merge_entry i) cs None =
     (case find (\<lambda>c. critter_id c = i) (rev cs) of None \<Rightarrow> None | Some c \<Rightarrow> Some (retarget c r))"
proof (induction cs)
  case Nil
  then show ?case by simp
next
  case (Cons a cs)
  show ?case
  proof (cases "critter_id a = i")
    case True
    have "fold (merge_entry i) (a # cs) None =
      (case find (\<lambda>c. critter_id c = i) (rev (a # cs)) of None \<Rightarrow> None
       | Some c \<Rightarrow> Some (retarget c (new_record a)))"
      using True
      by (simp add: merge_entry_match fold_merge_entry_Some find_snoc retarget_new_record
          split: option.split)
    then show ?thesis by blast
  next
    case False
    from Cons.IH obtain r where r: "fold (merge_entry i) cs None =
      (case find (\<lambda>c. critter_id c = i) (rev cs) of None \<Rightarrow> None
       | Some c \<Rightarrow> Some (retarget c r))"
      by blast
    have "fold (merge_entry i) (a # cs) None =
      (case find (\<lambda>c. critter_id c = i) (rev (a # cs)) of None \<Rightarrow> None
       | Some c \<Rightarrow> Some (retarget c r))"
      using False r by (simp add: merge_entry_other find_snoc split: option.split)
    then show ?thesis by blast
  qed
qed

lemma fold_merge_entry_idem:
  "fold (merge_entry i) cs (fold (merge_entry i) cs m) = fold (merge_entry i) cs m"
proof (cases m)
  case None
  obtain r where "fold (merge_entry i) cs None =
     (case find (\<lambda>c. critter_id c = i) (rev cs) of None \<Rightarrow> None | Some c \<Rightarrow> Some (retarget c r))"
    using fold_merge_entry_None by blast
  then show ?thesis using None
    by (cases "find (\<lambda>c. critter_id c = i) (rev cs)")
       (simp_all add: fold_merge_entry_Some retarget_retarget)
next
  case (Some r)
  then show ?thesis
    by (cases "find (\<lambda>c. critter_id c = i) (rev cs)")
       (simp_all add: fold_merge_entry_Some retarget_retarget)
qed

lemma fold_merge_entry_present:
  "i \<in> critter_id ` set cs \<Longrightarrow> fold (merge_entry i) cs m \<noteq> None"
proof (induction cs arbitrary: m)
  case Nil
  then show ?case by simp
next
  case (Cons a cs)
  show ?case
  proof (cases "critter_id a = i")
    case True
    then show ?thesis by (simp add: merge_entry_match fold_merge_entry_Some)
  next
    case False
    then show ?thesis using Cons by (simp add: merge_entry_other)
  qed
qed

lemma fold_merge_entry_distinct:
  "distinct (map critter_id cs) \<Longrightarrow> c \<in> set cs \<Longrightarrow>
   fold (merge_entry (critter_id c)) cs m =
     Some (case m of Some r \<Rightarrow> retarget c r | None \<Rightarrow> new_record c)"
proof (induction cs arbitrary: m)
  case Nil
  then show ?case by simp
next
  case (Cons a cs)
  show ?case
  proof (cases "a = c")
    case True
    then have "critter_id c \<notin> critter_id ` set cs" using Cons.prems by auto
    then show ?thesis using True
      by (simp add: fold_merge_entry_absent merge_entry_match)
  next
    case False
    then have "c \<in> set cs" using Cons.prems by simp
    moreover from this have "critter_id a \<noteq> critter_id c" using Cons.prems by auto
    ultimately show ?thesis using Cons by (simp add: merge_entry_other)
  qed
qed

lemma keys_reconcile: "fst ` set (reconcile cs d) = critter_id ` set cs"
proof -
  have "dom (map_of (reconcile cs d)) = critter_id ` set cs"
    using fold_merge_entry_present [of _ cs]
    by (auto simp add: dom_def map_of_reconcile fold_merge_entry_absent)
  then show ?thesis by (simp add: dom_map_of_conv_image_fst)
qed

lemma distinct_merge_critter:
  "distinct (map fst d) \<Longrightarrow> distinct (map fst (merge_critter c d))"
  by (simp add: merge_critter_def distinct_update split: option.split)

lemma distinct_fold_merge_critter:
  "distinct (map fst d) \<Longrightarrow> distinct (map fst (fold merge_critter cs d))"
  by (induction cs arbitrary: d) (simp_all add: distinct_merge_critter)

lemma distinct_reconcile:
  "distinct (map fst d) \<Longrightarrow> distinct (map fst (reconcile cs d))"
  by (simp add: reconcile_def remove_dead_def distinct_fold_merge_critter distinct_map_filter)

lemma keys_merge_critter_present:
  "critter_id c \<in> fst ` set d \<Longrightarrow> map fst (merge_critter c d) = map fst d"
  by (simp add: merge_critter_def update_keys split: option.split)

lemma keys_fold_merge_critter_present:
  "critter_id ` set cs \<subseteq> fst ` set d \<Longrightarrow> map fst (fold merge_critter cs d) = map fst d"
proof (induction cs arbitrary: d)
  case Nil
  then show ?case by simp
next
  case (Cons a cs)
  have k: "map fst (merge_critter a d) = map fst d"
    using Cons.prems by (simp add: keys_merge_critter_present)
  then have "fst ` set (merge_critter a d) = fst ` set d"
    by (metis set_map)
  then show ?case using Cons k by simp
qed

lemma remove_dead_all_live:
  "fst ` set d \<subseteq> critter_id ` set cs \<Longrightarrow> remove_dead cs d = d"
  by (auto simp add: remove_dead_def intro!: filter_True)

lemma entries_eqI:
  "distinct (map fst xs) \<Longrightarrow> map fst xs = map fst ys \<Longrightarrow> map_of xs = map_of ys \<Longrightarrow> xs = ys"
proof (induction xs arbitrary: ys)
  case Nil
  then show ?case by simp
next
  case (Cons p xs)
  then obtain q ys' where ys: "ys = q # ys'" by (cases ys) auto
  have k: "fst p = fst q" and ks: "map fst xs = map fst ys'"
    using Cons.prems ys by simp_all
  have "map_of (p # xs) (fst p) = map_of ys (fst p)"
    using Cons.prems(3) by (rule fun_cong)
  then have v: "snd p = snd q" using k ys by simp
  have notin: "fst p \<notin> fst ` set xs" "fst p \<notin> fst ` set ys'"
    using Cons.prems ks by (auto simp flip: set_map)
  have "map_of xs = map_of ys'"
  proof
    fix j
    show "map_of xs j = map_of ys' j"
    proof (cases "j = fst p")
      case True
      have "map_of xs (fst p) = None" and "map_of ys' (fst p) = None"
        using notin by (simp_all add: map_of_eq_None_iff)
      then show ?thesis using True by simp
    next
      case False
      have "map_of (p # xs) j = map_of ys j"
        using Cons.prems(3) by (rule fun_cong)
      then show ?thesis using False k ys by simp
    qed
  qed
  then have "xs = ys'" using Cons ks by simp
  then show ?case using ys k v by (simp add: prod_eq_iff)
qed

lemma reconcile_idem:
  assumes "distinct (map fst d)"
  shows "reconcile cs (reconcile cs d) = reconcile cs d"
proof (rule entries_eqI)
  let ?d1 = "reconcile cs d"
  have keys: "fst ` set ?d1 = critter_id ` set cs" by (rule keys_reconcile)
  have "reconcile cs ?d1 = fold merge_critter cs ?d1"
    using keys by (simp add: reconcile_def [of cs ?d1] remove_dead_all_live)
  then show "map fst (reconcile cs ?d1) = map fst ?d1"
    using keys by (simp add: keys_fold_merge_critter_present)
  show "distinct (map fst (reconcile cs ?d1))"
    using assms by (simp add: distinct_reconcile)
  show "map_of (reconcile cs ?d1) = map_of ?d1"
  proof
    fix i
    show "map_of (reconcile cs ?d1) i = map_of ?d1 i"
      by (simp add: map_of_reconcile fold_merge_entry_idem fold_merge_entry_absent)
  qed
qed

lemma map_of_reconcile_distinct:
  assumes "distinct (map critter_id cs)" and "c \<in> set cs"
  shows "map_of (reconcile cs d) (critter_id c) =
     Some (case map_of d (critter_id c) of Some r \<Rightarrow> retarget c r | None \<Rightarrow> new_record c)"
  using assms by (simp add: map_of_reconcile fold_merge_entry_distinct)

lemma map_of_reconcile_absent:
  "i \<notin> critter_id ` set cs \<Longrightarrow> map_of (reconcile cs d) i = None"
  by (simp add: map_of_reconcile fold_merge_entry_absent)

lemma retarget_current: "currentX (retarget c r) = currentX r" "currentY (retarget c r) = currentY r"
  by (simp_all add: retarget_def)

lemma map_of_reconcile_current:
  assumes "i \<in> critter_id ` set cs" and "map_of d i = Some r"
  shows "\<exists>r'. map_of (reconcile cs d) i = Some r' \<and> currentX r' = currentX r \<and>
              currentY r' = currentY r"
  using assms
  by (simp add: map_of_reconcile fold_merge_entry_Some retarget_current split: option.split)

text \<open>
  C1.  After a live update that fetched the list \<open>critters\<close> the keys of the dictionary
  are exactly the ids of the list, and every other id has no entry; an id of the list that
  had an entry keeps its current position.  When the ids of the list are pairwise
  different, as the data model has them, the entry of an id that existed before is the old
  one with the new target and snapshot, and the entry of a new id has the position of its
  snapshot as current and as target position.  A dictionary without repeated keys then
  has as many entries as the list has ids.
\<close>

theorem handleLiveUpdate_reconciles:
  assumes "currentTerrainData s \<noteq> None"
  shows "fst ` set (critterDisplayData (handleLiveUpdate s (Inr critters))) =
           critter_id ` set critters \<and>
         (\<forall>i. i \<notin> critter_id ` set critters \<longrightarrow>
            map_of (critterDisplayData (handleLiveUpdate s (Inr critters))) i = None) \<and>
         (\<forall>i r. i \<in> critter_id ` set critters \<and> map_of (critterDisplayData s) i = Some r \<longrightarrow>
            (\<exists>r'. map_of (critterDisplayData (handleLiveUpdate s (Inr critters))) i = Some r' \<and>
                  currentX r' = currentX r \<and> currentY r' = currentY r)) \<and>
         (distinct (map critter_id critters) \<longrightarrow>
            (\<forall>c \<in> set critters.
               map_of (critterDisplayData (handleLiveUpdate s (Inr critters))) (critter_id c) =
                 Some (case map_of (critterDisplayData s) (critter_id c) of
                         Some r \<Rightarrow> r\<lparr>targetX := critter_x c, targetY := critter_y c, critter := c\<rparr>
                       | None \<Rightarrow>
                           \<lparr>currentX = critter_x c, currentY = critter_y c,
                            targetX = critter_x c, targetY = critter_y c, critter = c\<rparr>))) \<and>
         (distinct (map fst (critterDisplayData s)) \<longrightarrow>
            length (critterDisplayData (handleLiveUpdate s (Inr critters))) =
              card (critter_id ` set critters))"
proof -
  let ?d = "reconcile critters (critterDisplayData s)"
  from assms obtain tiles where "currentTerrainData s = Some tiles" by auto
  then have upd: "critterDisplayData (handleLiveUpdate s (Inr critters)) = ?d"
    by (simp add: handleLiveUpdate_def)
  have keys: "fst ` set ?d = critter_id ` set critters"
    by (rule keys_reconcile)
  have absent: "\<forall>i. i \<notin> critter_id ` set critters \<longrightarrow> map_of ?d i = None"
    by (simp add: map_of_reconcile_absent)
  have kept: "\<forall>i r. i \<in> critter_id ` set critters \<and> map_of (critterDisplayData s) i = Some r \<longrightarrow>
      (\<exists>r'. map_of ?d i = Some r' \<and> currentX r' = currentX r \<and> currentY r' = currentY r)"
    using map_of_reconcile_current by blast
  have present: "distinct (map critter_id critters) \<longrightarrow>
      (\<forall>c \<in> set critters.
        map_of ?d (critter_id c) =
          Some (case map_of (critterDisplayData s) (critter_id c) of
                  Some r \<Rightarrow> r\<lparr>targetX := critter_x c, targetY := critter_y c, critter := c\<rparr>
                | None \<Rightarrow>
                    \<lparr>currentX = critter_x c, currentY = critter_y c,
                     targetX = critter_x c, targetY = critter_y c, critter = c\<rparr>))"
    by (simp add: map_of_reconcile_distinct retarget_def new_record_def split: option.split)
  have size: "distinct (map fst (critterDisplayData s)) \<longrightarrow>
      length ?d = card (critter_id ` set critters)"
  proof
    assume "distinct (map fst (critterDisplayData s))"
    then have "distinct (map fst ?d)" by (rule distinct_reconcile)
    then have "card (set (map fst ?d)) = length (map fst ?d)" by (rule distinct_card)
    then show "length ?d = card (critter_id ` set critters)" using keys by simp
  qed
  show ?thesis
    unfolding upd
    apply (intro conjI)
        apply (rule keys)
       apply (rule absent)
      apply (rule kept)
     apply (rule present)
    apply (rule size)
    done
qed

text \<open>
  The end-to-end example of the specification: critter 2 disappears, critter 4 spawns,
  critter 1 keeps its interpolated position 51 while its target moves to 53.
\<close>

theorem handleLiveUpdate_reconciles_witness:
  "currentTerrainData (sample_viewer sample_cache None) \<noteq> None \<and>
   distinct (map critter_id sample_fetch) \<and>
   fst ` set (critterDisplayData
     (handleLiveUpdate (sample_viewer sample_cache None) (Inr sample_fetch))) = {1, 3, 4} \<and>
   length (critterDisplayData
     (handleLiveUpdate (sample_viewer sample_cache None) (Inr sample_fetch))) = 3 \<and>
   map_of (critterDisplayData
     (handleLiveUpdate (sample_viewer sample_cache None) (Inr sample_fetch))) 1 =
     Some \<lparr>currentX = 51, currentY = 50, targetX = 53, targetY = 50,
           critter = sample_critter 1 53 50\<rparr> \<and>
   map_of (critterDisplayData
     (handleLiveUpdate (sample_viewer sample_cache None) (Inr sample_fetch))) 4 =
     Some \<lparr>currentX = 41, currentY = 42, targetX = 41, targetY = 42,
           critter = sample_critter 4 41 42\<rparr> \<and>
   map_of (critterDisplayData
     (handleLiveUpdate (sample_viewer sample_cache None) (Inr sample_fetch))) 2 = None"
  using handleLiveUpdate_reconciles [of "sample_viewer sample_cache None" sample_fetch]
  by (simp add: sample_viewer_def sample_cache_def sample_fetch_def sample_critter_def
      new_record_def)

text \<open>
  No handler makes a key occur twice in the dictionary, and a manual update starts from an
  empty one.
\<close>

lemma animationLoop_cache:
  "critterDisplayData (animationLoop s) = map (\<lambda>(i, r). (i, interpolate r)) (critterDisplayData s)"
  by (simp add: animationLoop_def updateStatsPanel_def Let_def split: option.split)

lemma distinct_manual:
  "distinct (map fst (fold (\<lambda>c d. AList.update (critter_id c) (new_record c) d) cs d)) =
   distinct (map fst d)"
  by (induction cs arbitrary: d) (simp_all add: update_keys)

lemma keys_distinct_preserved:
  assumes "distinct (map fst (critterDisplayData s))"
  shows "distinct (map fst (critterDisplayData (handleLiveUpdate s fetched))) \<and>
         distinct (map fst (critterDisplayData (handleManualUpdate s inputs terrainFetched crittersFetched))) \<and>
         distinct (map fst (critterDisplayData (animationLoop s))) \<and>
         distinct (map fst (critterDisplayData (handleCanvasClick s mouseX mouseY)))"
  using assms
  by (auto simp add: handleLiveUpdate_def handleManualUpdate_def handleCanvasClick_def
      updateStatsPanel_def animationLoop_cache distinct_reconcile distinct_manual Let_def
      case_prod_unfold comp_def
      split: sum.split)

text \<open>
  C7.  A second live update with the same list changes nothing: targets and snapshots are
  the ones the first update stored, and no current position is reset.
\<close>

theorem handleLiveUpdate_idempotent:
  assumes "distinct (map fst (critterDisplayData s))"
  shows "handleLiveUpdate (handleLiveUpdate s (Inr critters)) (Inr critters) =
         handleLiveUpdate s (Inr critters)"
  using assms by (simp add: handleLiveUpdate_def reconcile_idem)

text \<open>
  In the instance critter 1 is at 51 on its way to 53 after the first update, and still
  there after the second.
\<close>

theorem handleLiveUpdate_idempotent_witness:
  "distinct (map fst (critterDisplayData (sample_viewer sample_cache None))) \<and>
   handleLiveUpdate (handleLiveUpdate (sample_viewer sample_cache None) (Inr sample_fetch))
     (Inr sample_fetch) =
   handleLiveUpdate (sample_viewer sample_cache None) (Inr sample_fetch) \<and>
   map_of (critterDisplayData
     (handleLiveUpdate (handleLiveUpdate (sample_viewer sample_cache None) (Inr sample_fetch))
        (Inr sample_fetch))) 1 =
     Some \<lparr>currentX = 51, currentY = 50, targetX = 53, targetY = 50,
           critter = sample_critter 1 53 50\<rparr>"
  using handleLiveUpdate_idempotent [of "sample_viewer sample_cache None" sample_fetch]
  by (simp add: sample_viewer_def sample_cache_def sample_fetch_def sample_critter_def
      new_record_def retarget_def handleLiveUpdate_def reconcile_def remove_dead_def
      merge_critter_def)

subsection \<open>Failing fetches\<close>

text \<open>
  C9.  When the fetch of a live update fails, the state is the old one with the error
  appended to the log: the dictionary is untouched, and the next frame computes what it
  would have computed without the update.
\<close>

theorem handleLiveUpdate_fetch_failure:
  assumes "currentTerrainData s \<noteq> None"
  shows "handleLiveUpdate s (Inl e) = s\<lparr>console := console s @ [e]\<rparr> \<and>
         critterDisplayData (handleLiveUpdate s (Inl e)) = critterDisplayData s \<and>
         animationLoop (handleLiveUpdate s (Inl e)) =
           (animationLoop s)\<lparr>console := console s @ [e]\<rparr>"
proof -
  from assms obtain tiles where "currentTerrainData s = Some tiles" by auto
  then show ?thesis
    by (simp add: handleLiveUpdate_def animationLoop_def updateStatsPanel_def Let_def
        split: option.split)
qed

theorem handleLiveUpdate_fetch_failure_witness:
  "currentTerrainData (sample_viewer sample_cache None) \<noteq> None \<and>
   handleLiveUpdate (sample_viewer sample_cache None) (Inl (Error ''Failed to fetch critters'')) =
     (sample_viewer sample_cache None)\<lparr>console := [Error ''Failed to fetch critters'']\<rparr> \<and>
   critterDisplayData
     (handleLiveUpdate (sample_viewer sample_cache None) (Inl (Error ''Failed to fetch critters''))) =
     sample_cache"
  using handleLiveUpdate_fetch_failure
    [of "sample_viewer sample_cache None" "Error ''Failed to fetch critters''"]
  by (simp add: sample_viewer_def)

text \<open>
  C10.  A manual update writes the view and the page URL before it fetches anything.  If
  the terrain fetch fails, the handler returns with the new view next to the old terrain
  and the old dictionary; if only the critter fetch fails, with the new view and the new
  terrain next to the old dictionary.  Either way the error is logged and nothing is
  thrown.
\<close>

theorem handleManualUpdate_not_atomic:
  "currentView (handleManualUpdate s inputs (Inl e) crittersFetched) = inputs \<and>
   pageUrl (handleManualUpdate s inputs (Inl e) crittersFetched) = Some inputs \<and>
   currentTerrainData (handleManualUpdate s inputs (Inl e) crittersFetched) = currentTerrainData s \<and>
   critterDisplayData (handleManualUpdate s inputs (Inl e) crittersFetched) = critterDisplayData s \<and>
   console (handleManualUpdate s inputs (Inl e) crittersFetched) = console s @ [e] \<and>
   currentView (handleManualUpdate s inputs (Inr tiles) (Inl e)) = inputs \<and>
   pageUrl (handleManualUpdate s inputs (Inr tiles) (Inl e)) = Some inputs \<and>
   currentTerrainData (handleManualUpdate s inputs (Inr tiles) (Inl e)) = Some tiles \<and>
   critterDisplayData (handleManualUpdate s inputs (Inr tiles) (Inl e)) = critterDisplayData s \<and>
   console (handleManualUpdate s inputs (Inr tiles) (Inl e)) = console s @ [e]"
  by (simp add: handleManualUpdate_def Let_def)

subsection \<open>The selection when its critter disappears\<close>

lemma map_of_interpolated:
  "map_of (map (\<lambda>(i, r). (i, interpolate r)) d) k = map_option interpolate (map_of d k)"
  by (simp add: map_of_map)

text \<open>
  C6, as the code has it.  When the fetched list no longer contains the id of the selected
  critter, the live update removes the entry of that id and leaves the selection and the
  detail panel alone; the next frame finds no entry for the id and skips the
  re-synchronisation, so selection and panel keep the last snapshot.
\<close>

theorem selection_survives_disappearance:
  assumes "currentTerrainData s \<noteq> None"
    and "selectedCritter s = Some sel"
    and "critter_id sel \<notin> critter_id ` set critters"
  shows "map_of (critterDisplayData (handleLiveUpdate s (Inr critters))) (critter_id sel) = None \<and>
         selectedCritter (handleLiveUpdate s (Inr critters)) = Some sel \<and>
         statsContent (handleLiveUpdate s (Inr critters)) = statsContent s \<and>
         selectedCritter (animationLoop (handleLiveUpdate s (Inr critters))) = Some sel \<and>
         statsContent (animationLoop (handleLiveUpdate s (Inr critters))) = statsContent s"
proof -
  from assms(1) obtain tiles where "currentTerrainData s = Some tiles" by auto
  then show ?thesis
    using assms(2,3)
    by (simp add: handleLiveUpdate_def animationLoop_def Let_def map_of_interpolated
        map_of_reconcile_absent)
qed

theorem selection_survives_disappearance_witness:
  "currentTerrainData (sample_viewer sample_cache (Some (sample_critter 2 45 48))) \<noteq> None \<and>
   selectedCritter (sample_viewer sample_cache (Some (sample_critter 2 45 48))) =
     Some (sample_critter 2 45 48) \<and>
   critter_id (sample_critter 2 45 48) \<notin> critter_id ` set sample_fetch \<and>
   map_of (critterDisplayData
     (handleLiveUpdate (sample_viewer sample_cache (Some (sample_critter 2 45 48)))
        (Inr sample_fetch))) 2 = None \<and>
   selectedCritter
     (animationLoop
        (handleLiveUpdate (sample_viewer sample_cache (Some (sample_critter 2 45 48)))
           (Inr sample_fetch))) = Some (sample_critter 2 45 48) \<and>
   statsContent
     (animationLoop
        (handleLiveUpdate (sample_viewer sample_cache (Some (sample_critter 2 45 48)))
           (Inr sample_fetch))) = Some (sample_critter 2 45 48)"
  using selection_survives_disappearance
    [of "sample_viewer sample_cache (Some (sample_critter 2 45 48))" "sample_critter 2 45 48"
        sample_fetch]
  by (simp add: sample_viewer_def sample_fetch_def sample_critter_def)

text \<open>
  The claim as the specification words it fails: critter 2 is selected and missing from the
  fetch, and after the live update and the next frame it is still selected and still shown.
\<close>

theorem selection_not_cleared:
  "critter_id (sample_critter 2 45 48) \<notin> critter_id ` set sample_fetch \<and>
   selectedCritter
     (handleLiveUpdate (sample_viewer sample_cache (Some (sample_critter 2 45 48)))
        (Inr sample_fetch)) \<noteq> None \<and>
   selectedCritter
     (animationLoop
        (handleLiveUpdate (sample_viewer sample_cache (Some (sample_critter 2 45 48)))
           (Inr sample_fetch))) = Some (sample_critter 2 45 48) \<and>
   statsContent
     (animationLoop
        (handleLiveUpdate (sample_viewer sample_cache (Some (sample_critter 2 45 48)))
           (Inr sample_fetch))) = Some (sample_critter 2 45 48)"
  by (simp add: sample_viewer_def sample_cache_def sample_fetch_def sample_critter_def
      new_record_def retarget_def handleLiveUpdate_def reconcile_def remove_dead_def
      merge_critter_def animationLoop_def Let_def)

subsection \<open>Interpolation\<close>



lemma round_even_of_int [simp]: "round_even (of_int z) = z"
  by (simp add: round_even_def)



text \<open>
  The spacing around a number: never below the least exponent, and the number has at
  most \<open>p\<close> bits in units of it, exactly \<open>p\<close> unless the spacing is the least one.
\<close>

lemma ulp_exponent_lower: "- int n \<le> ulp_exponent p n x"
  by (simp add: ulp_exponent_def)

lemma ulp_exponent_above: "\<bar>x\<bar> < 2 powi (int p + ulp_exponent p n x)"
proof -
  let ?N = "\<lfloor>\<bar>x\<bar> * 2 ^ n\<rfloor>"
  let ?b = "bitlen ?N"
  have b0: "0 \<le> ?b" by (rule bitlen_nonneg)
  have "?N < 2 ^ nat ?b"
  proof (cases "0 < ?N")
    case True
    then show ?thesis using bitlen_bounds [of ?N] by simp
  next
    case False
    then show ?thesis by (simp add: order.strict_trans1 [of _ 0])
  qed
  then have "?N + 1 \<le> 2 ^ nat ?b" by simp
  then have a: "real_of_int ?N + 1 \<le> 2 ^ nat ?b"
    using of_int_le_iff [of "?N + 1" "2 ^ nat ?b", where ?'a = real] by simp
  have b: "\<bar>x\<bar> * 2 ^ n < real_of_int ?N + 1" by linarith
  from a b have "\<bar>x\<bar> * 2 ^ n < 2 ^ nat ?b" by linarith
  then have "\<bar>x\<bar> * 2 ^ n < 2 powi ?b" using b0 by (simp add: power_int_nonneg_exp)
  also have "\<dots> \<le> 2 powi (int p + (max (?b - int p) 0))"
    by (intro power_int_increasing) auto
  also have "\<dots> = 2 powi (int p + ulp_exponent p n x) * 2 ^ n"
    by (simp add: ulp_exponent_def power_int_add power_int_diff)
  finally show ?thesis by simp
qed

lemma ulp_exponent_below:
  assumes "- int n < ulp_exponent p n x"
  shows "2 powi (int p - 1 + ulp_exponent p n x) \<le> \<bar>x\<bar>"
proof -
  let ?N = "\<lfloor>\<bar>x\<bar> * 2 ^ n\<rfloor>"
  let ?b = "bitlen ?N"
  from assms have big: "int p < ?b" by (simp add: ulp_exponent_def)
  then have pos: "0 < ?N" using bitlen_eq_zero_iff [of ?N] by (cases "0 < ?N") auto
  have q: "ulp_exponent p n x = ?b - int p - int n" using big by (simp add: ulp_exponent_def)
  have "2 ^ nat (?b - 1) \<le> ?N" using bitlen_bounds [OF pos] by simp
  then have a: "2 ^ nat (?b - 1) \<le> real_of_int ?N"
    using of_int_le_iff [of "2 ^ nat (?b - 1)" ?N, where ?'a = real] by simp
  have b: "real_of_int ?N \<le> \<bar>x\<bar> * 2 ^ n" by linarith
  from a b have "2 ^ nat (?b - 1) \<le> \<bar>x\<bar> * 2 ^ n" by linarith
  then have "2 powi (?b - 1) \<le> \<bar>x\<bar> * 2 ^ n" using big by (simp add: power_int_nonneg_exp)
  moreover have "(2::real) powi (?b - 1) = 2 powi (int p - 1 + ulp_exponent p n x) * 2 ^ n"
    by (simp add: q power_int_add power_int_diff)
  ultimately show ?thesis by simp
qed


lemma round_even_zero [simp]: "round_even 0 = 0"
  using round_even_of_int [of 0] by simp


lemma ulp_exponent_mono:
  assumes "\<bar>x\<bar> \<le> \<bar>y\<bar>"
  shows "ulp_exponent p n x \<le> ulp_exponent p n y"
proof (rule ccontr)
  assume "\<not> ulp_exponent p n x \<le> ulp_exponent p n y"
  then have lt: "ulp_exponent p n y < ulp_exponent p n x" by simp
  then have "- int n < ulp_exponent p n x"
    using ulp_exponent_lower [of n p y] by linarith
  then have "2 powi (int p - 1 + ulp_exponent p n x) \<le> \<bar>x\<bar>"
    by (rule ulp_exponent_below)
  moreover have "\<bar>y\<bar> < 2 powi (int p + ulp_exponent p n y)"
    by (rule ulp_exponent_above)
  moreover have "(2::real) powi (int p + ulp_exponent p n y) \<le>
      2 powi (int p - 1 + ulp_exponent p n x)"
    using lt by (intro power_int_increasing) auto
  ultimately show False using assms by linarith
qed







lemma round_to_zero [simp]: "round_to p n 0 = 0"
  by (simp add: round_to_def)





















lemma round_double_zero [simp]: "round_double 0 = 0"
  by (simp add: round_double_def)



text \<open>Frames of a record, and of the dictionary.\<close>

lemma interpolate_target [simp]:
  "targetX (interpolate r) = targetX r" "targetY (interpolate r) = targetY r"
  "critter (interpolate r) = critter r"
  by (simp_all add: interpolate_def)



















subsection \<open>Hit test\<close>

lemma visit_cases:
  "visit f e (c0, m0) =
     (case f (snd e) of
        None \<Rightarrow> (c0, m0)
      | Some x \<Rightarrow>
          if x < click_radius \<and> (case m0 of None \<Rightarrow> True | Some m \<Rightarrow> x < m)
          then (Some (critter (snd e)), Some x) else (c0, m0))"
  by (simp add: visit_def click_radius_def split: option.split)

lemma fold_visit:
  "(fold (visit f) d (c0, m0) = (c0, m0) \<and>
      (\<forall>e\<in>set d. \<forall>x. f (snd e) = Some x \<longrightarrow>
         \<not> (x < click_radius \<and> (case m0 of None \<Rightarrow> True | Some m \<Rightarrow> x < m)))) \<or>
   (\<exists>e\<in>set d. \<exists>x. f (snd e) = Some x \<and>
      fold (visit f) d (c0, m0) = (Some (critter (snd e)), Some x) \<and>
      x < click_radius \<and> (case m0 of None \<Rightarrow> True | Some m \<Rightarrow> x < m) \<and>
      (\<forall>e'\<in>set d. \<forall>x'. f (snd e') = Some x' \<longrightarrow> x' < click_radius \<longrightarrow> x \<le> x'))"
proof (induction d arbitrary: c0 m0)
  case Nil
  then show ?case by simp
next
  case (Cons a d)
  show ?case
  proof (cases "f (snd a)")
    case None
    then have v: "visit f a (c0, m0) = (c0, m0)" by (simp add: visit_cases)
    show ?thesis using Cons.IH [of c0 m0] None v by auto
  next
    case (Some x)
    show ?thesis
    proof (cases "x < click_radius \<and> (case m0 of None \<Rightarrow> True | Some m \<Rightarrow> x < m)")
      case True
      then have v: "visit f a (c0, m0) = (Some (critter (snd a)), Some x)"
        using Some by (simp add: visit_cases)
      from Cons.IH [of "Some (critter (snd a))" "Some x"]
      show ?thesis
      proof
        assume keep: "fold (visit f) d (Some (critter (snd a)), Some x) =
            (Some (critter (snd a)), Some x) \<and>
          (\<forall>e\<in>set d. \<forall>x'. f (snd e) = Some x' \<longrightarrow>
             \<not> (x' < click_radius \<and> (case Some x of None \<Rightarrow> True | Some m \<Rightarrow> x' < m)))"
        then have "\<forall>e'\<in>set (a # d). \<forall>x'. f (snd e') = Some x' \<longrightarrow> x' < click_radius \<longrightarrow> x \<le> x'"
          using Some by (auto simp add: not_less)
        then show ?thesis using keep v Some True by auto
      next
        assume "\<exists>e\<in>set d. \<exists>y. f (snd e) = Some y \<and>
          fold (visit f) d (Some (critter (snd a)), Some x) = (Some (critter (snd e)), Some y) \<and>
          y < click_radius \<and> (case Some x of None \<Rightarrow> True | Some m \<Rightarrow> y < m) \<and>
          (\<forall>e'\<in>set d. \<forall>x'. f (snd e') = Some x' \<longrightarrow> x' < click_radius \<longrightarrow> y \<le> x')"
        then obtain e y where e: "e \<in> set d" "f (snd e) = Some y"
          "fold (visit f) d (Some (critter (snd a)), Some x) = (Some (critter (snd e)), Some y)"
          "y < click_radius" "y < x"
          "\<forall>e'\<in>set d. \<forall>x'. f (snd e') = Some x' \<longrightarrow> x' < click_radius \<longrightarrow> y \<le> x'"
          by auto
        have below: "case m0 of None \<Rightarrow> True | Some m \<Rightarrow> y < m"
          using True e(5) by (cases m0) auto
        have least: "\<forall>e'\<in>set (a # d). \<forall>x'. f (snd e') = Some x' \<longrightarrow> x' < click_radius \<longrightarrow> y \<le> x'"
          using e(5,6) Some by auto
        show ?thesis
          using e(1-4) below least v by (intro disjI2 bexI [of _ e] exI [of _ y]) simp_all
      qed
    next
      case False
      have "visit f a (c0, m0) =
          (if x < click_radius \<and> (case m0 of None \<Rightarrow> True | Some m \<Rightarrow> x < m)
           then (Some (critter (snd a)), Some x) else (c0, m0))"
        using Some by (simp add: visit_cases)
      then have v: "visit f a (c0, m0) = (c0, m0)"
        using False by (simp only: if_False)
      from Cons.IH [of c0 m0]
      show ?thesis
      proof
        assume "fold (visit f) d (c0, m0) = (c0, m0) \<and>
          (\<forall>e\<in>set d. \<forall>x. f (snd e) = Some x \<longrightarrow>
             \<not> (x < click_radius \<and> (case m0 of None \<Rightarrow> True | Some m \<Rightarrow> x < m)))"
        then show ?thesis using v Some False by auto
      next
        assume "\<exists>e\<in>set d. \<exists>y. f (snd e) = Some y \<and>
          fold (visit f) d (c0, m0) = (Some (critter (snd e)), Some y) \<and>
          y < click_radius \<and> (case m0 of None \<Rightarrow> True | Some m \<Rightarrow> y < m) \<and>
          (\<forall>e'\<in>set d. \<forall>x'. f (snd e') = Some x' \<longrightarrow> x' < click_radius \<longrightarrow> y \<le> x')"
        then obtain e y where e: "e \<in> set d" "f (snd e) = Some y"
          "fold (visit f) d (c0, m0) = (Some (critter (snd e)), Some y)"
          "y < click_radius" "case m0 of None \<Rightarrow> True | Some m \<Rightarrow> y < m"
          "\<forall>e'\<in>set d. \<forall>x'. f (snd e') = Some x' \<longrightarrow> x' < click_radius \<longrightarrow> y \<le> x'"
          by auto
        have "x < click_radius \<longrightarrow> y \<le> x"
          using False e(5) by (cases m0) auto
        then have least: "\<forall>e'\<in>set (a # d). \<forall>x'. f (snd e') = Some x' \<longrightarrow> x' < click_radius \<longrightarrow> y \<le> x'"
          using e(6) Some by auto
        show ?thesis
          using e(1-5) least v by (intro disjI2 bexI [of _ e] exI [of _ y]) simp_all
      qed
    qed
  qed
qed

lemma closest_hit:
  "(fst (closest f d) = None \<and>
      (\<forall>e\<in>set d. \<forall>x. f (snd e) = Some x \<longrightarrow> \<not> x < click_radius)) \<or>
   (\<exists>e\<in>set d. \<exists>x. f (snd e) = Some x \<and> fst (closest f d) = Some (critter (snd e)) \<and>
      x < click_radius \<and>
      (\<forall>e'\<in>set d. \<forall>x'. f (snd e') = Some x' \<longrightarrow> x \<le> x'))"
proof -
  from fold_visit [of f d None None]
  show ?thesis
  proof
    assume "fold (visit f) d (None, None) = (None, None) \<and>
      (\<forall>e\<in>set d. \<forall>x. f (snd e) = Some x \<longrightarrow>
         \<not> (x < click_radius \<and> (case None of None \<Rightarrow> True | Some m \<Rightarrow> x < m)))"
    then show ?thesis by (simp add: closest_def)
  next
    assume "\<exists>e\<in>set d. \<exists>x. f (snd e) = Some x \<and>
      fold (visit f) d (None, None) = (Some (critter (snd e)), Some x) \<and>
      x < click_radius \<and> (case None of None \<Rightarrow> True | Some m \<Rightarrow> x < m) \<and>
      (\<forall>e'\<in>set d. \<forall>x'. f (snd e') = Some x' \<longrightarrow> x' < click_radius \<longrightarrow> x \<le> x')"
    then obtain e x where e: "e \<in> set d" "f (snd e) = Some x"
      "fold (visit f) d (None, None) = (Some (critter (snd e)), Some x)" "x < click_radius"
      "\<forall>e'\<in>set d. \<forall>x'. f (snd e') = Some x' \<longrightarrow> x' < click_radius \<longrightarrow> x \<le> x'"
      by auto
    have "\<forall>e'\<in>set d. \<forall>x'. f (snd e') = Some x' \<longrightarrow> x \<le> x'"
    proof (intro ballI allI impI)
      fix e' x'
      assume "e' \<in> set d" "f (snd e') = Some x'"
      then show "x \<le> x'"
        using e(4,5) by (cases "x' < click_radius") force+
    qed
    then show ?thesis
      using e(1-4) by (intro disjI2 bexI [of _ e] exI [of _ x]) (simp_all add: closest_def)
  qed
qed

lemma sqrt25: "sqrt 25 = 5"
  using real_sqrt_abs [of 5] by simp

lemma sqrt_less_9: "(sqrt x < 9) = (x < 81)"
  using real_sqrt_less_iff [of x 81] real_sqrt_abs [of 9] by simp

lemma click_distance_at_arc_center:
  assumes "view_w (currentView s) \<noteq> 0" and "view_h (currentView s) \<noteq> 0"
  shows "click_distance s (fst (arc_center s r)) (snd (arc_center s r)) r = Some 0"
  using assms by (simp add: click_distance_def arc_center_def Let_def)

text \<open>
  C5.  A click on the loaded map selects, among the entries whose marker is closer to the
  pointer than the draw radius plus the tolerance, one at the least distance, and clears
  the selection when there is no such entry; the detail panel shows the new selection.
  The distance is measured to the current position (changing the target of an entry does
  not change it), and it is 0 when the pointer is at the centre of the drawn marker.
\<close>

theorem handleCanvasClick_selects_nearest:
  assumes "currentTerrainData s \<noteq> None"
  shows "(if \<exists>e\<in>set (critterDisplayData s). \<exists>x.
               click_distance s mouseX mouseY (snd e) = Some x \<and>
               x < CRITTER_DRAW_RADIUS + CRITTER_CLICK_TOLERANCE
          then \<exists>e\<in>set (critterDisplayData s). \<exists>x.
                 click_distance s mouseX mouseY (snd e) = Some x \<and>
                 x < CRITTER_DRAW_RADIUS + CRITTER_CLICK_TOLERANCE \<and>
                 selectedCritter (handleCanvasClick s mouseX mouseY) = Some (critter (snd e)) \<and>
                 (\<forall>e'\<in>set (critterDisplayData s). \<forall>x'.
                    click_distance s mouseX mouseY (snd e') = Some x' \<longrightarrow> x \<le> x')
          else selectedCritter (handleCanvasClick s mouseX mouseY) = None) \<and>
         statsContent (handleCanvasClick s mouseX mouseY) =
           selectedCritter (handleCanvasClick s mouseX mouseY) \<and>
         (\<forall>r a b. click_distance s mouseX mouseY (r\<lparr>targetX := a, targetY := b\<rparr>) =
                  click_distance s mouseX mouseY r) \<and>
         (\<forall>r. view_w (currentView s) \<noteq> 0 \<and> view_h (currentView s) \<noteq> 0 \<longrightarrow>
              click_distance s (fst (arc_center s r)) (snd (arc_center s r)) r = Some 0)"
proof -
  let ?f = "click_distance s mouseX mouseY"
  let ?d = "critterDisplayData s"
  from assms obtain tiles where "currentTerrainData s = Some tiles" by auto
  then have sel: "selectedCritter (handleCanvasClick s mouseX mouseY) = fst (closest ?f ?d)"
    and panel: "statsContent (handleCanvasClick s mouseX mouseY) =
           selectedCritter (handleCanvasClick s mouseX mouseY)"
    by (simp_all add: handleCanvasClick_def updateStatsPanel_def)
  have hit: "(if \<exists>e\<in>set ?d. \<exists>x. ?f (snd e) = Some x \<and>
                  x < CRITTER_DRAW_RADIUS + CRITTER_CLICK_TOLERANCE
          then \<exists>e\<in>set ?d. \<exists>x. ?f (snd e) = Some x \<and>
                 x < CRITTER_DRAW_RADIUS + CRITTER_CLICK_TOLERANCE \<and>
                 selectedCritter (handleCanvasClick s mouseX mouseY) = Some (critter (snd e)) \<and>
                 (\<forall>e'\<in>set ?d. \<forall>x'. ?f (snd e') = Some x' \<longrightarrow> x \<le> x')
          else selectedCritter (handleCanvasClick s mouseX mouseY) = None)"
    using closest_hit [of ?f ?d] unfolding sel click_radius_def by (auto split: if_splits)
  have current_only: "\<forall>r a b. ?f (r\<lparr>targetX := a, targetY := b\<rparr>) = ?f r"
    by (simp add: click_distance_def)
  have center: "\<forall>r. view_w (currentView s) \<noteq> 0 \<and> view_h (currentView s) \<noteq> 0 \<longrightarrow>
              click_distance s (fst (arc_center s r)) (snd (arc_center s r)) r = Some 0"
    by (simp add: click_distance_at_arc_center)
  show ?thesis
    apply (intro conjI)
       apply (rule hit)
      apply (rule panel)
     apply (rule current_only)
    apply (rule center)
    done
qed

text \<open>
  Two entries within reach, the farther one first in the dictionary: the click on the
  marker of the nearer one selects it; a click 20 pixels below clears the selection.
\<close>

theorem handleCanvasClick_selects_nearest_witness:
  "currentTerrainData (sample_viewer [(3, sample_far), (1, sample_near)] None) \<noteq> None \<and>
   click_distance (sample_viewer [(3, sample_far), (1, sample_near)] None) 460 420 sample_far = Some 5 \<and>
   click_distance (sample_viewer [(3, sample_far), (1, sample_near)] None) 460 420 sample_near = Some 0 \<and>
   selectedCritter (handleCanvasClick (sample_viewer [(3, sample_far), (1, sample_near)] None) 460 420) =
     Some (sample_critter 1 52 50) \<and>
   selectedCritter
     (handleCanvasClick
        (sample_viewer [(3, sample_far), (1, sample_near)] (Some (sample_critter 1 52 50))) 460 440) =
     None"
  using handleCanvasClick_selects_nearest [of "sample_viewer [(3, sample_far), (1, sample_near)] None" 460 420]
  by (simp add: sample_viewer_def sample_far_def sample_near_def sample_critter_def
      handleCanvasClick_def updateStatsPanel_def closest_def visit_def click_distance_def
      CRITTER_DRAW_RADIUS_def CRITTER_CLICK_TOLERANCE_def sqrt25 sqrt_less_9)

section \<open>Properties of the binning\<close>

subsection \<open>Arithmetic of the bin index\<close>

lemma int_div_less_iff:
  assumes "0 < (b::int)"
  shows "(v div b < n) = (v < b * n)"
proof
  assume lt: "v div b < n"
  have "b * (v div b + 1) \<le> b * n"
    using assms lt by (intro mult_left_mono) simp_all
  moreover have "b * (v div b + 1) = b * (v div b) + b" by (simp add: distrib_left)
  moreover have "b * (v div b) + v mod b = v" by (rule mult_div_mod_eq)
  moreover have "v mod b < b" using assms by simp
  ultimately show "v < b * n" by linarith
next
  assume lt: "v < b * n"
  show "v div b < n"
  proof (rule ccontr)
    assume "\<not> v div b < n"
    then have "b * n \<le> b * (v div b)"
      using assms by (intro mult_left_mono) simp_all
    moreover have "b * (v div b) + v mod b = v" by (rule mult_div_mod_eq)
    moreover have "0 \<le> v mod b" using assms by simp
    ultimately show False using lt by linarith
  qed
qed

lemma in_bins_iff:
  "0 < binSize \<Longrightarrow>
   (0 \<le> v div binSize \<and> v div binSize < int n) = (0 \<le> v \<and> v < binSize * int n)"
  by (simp add: pos_imp_zdiv_nonneg_iff int_div_less_iff)


lemma sum_list_bump:
  "k < length xs \<Longrightarrow> sum_list (xs[k := xs ! k + c]) = sum_list xs + (c::int)"
proof (induction xs arbitrary: k)
  case Nil
  then show ?case by simp
next
  case (Cons x xs)
  then show ?case by (cases k) simp_all
qed

lemma push_bins_data:
  "0 < binSize \<Longrightarrow>
   data (push_bins i binSize maxVal h) = data h @ replicate (nat (- ((i - maxVal) div binSize))) 0"
proof (induction i binSize maxVal h rule: push_bins.induct)
  case (1 i binSize maxVal h)
  show ?case
  proof (cases "i < maxVal")
    case True
    have "i + binSize - maxVal = (i - maxVal) + binSize" by simp
    then have shift: "(i + binSize - maxVal) div binSize = (i - maxVal) div binSize + 1"
      using "1.prems" by (metis div_add_self2 less_irrefl)
    have neg: "(i - maxVal) div binSize < 0"
      using True "1.prems" by (simp add: pos_imp_zdiv_neg_iff)
    have cnt: "nat (- ((i - maxVal) div binSize)) = Suc (nat (- ((i + binSize - maxVal) div binSize)))"
      using shift neg by simp
    show ?thesis
      using True "1.prems" "1.IH" cnt by (simp add: replicate_app_Cons_same)
  next
    case False
    then have "0 \<le> (i - maxVal) div binSize"
      using "1.prems" by (simp add: pos_imp_zdiv_nonneg_iff)
    then show ?thesis using False by simp
  qed
qed

lemma push_bins_length:
  "0 < binSize \<Longrightarrow>
   length (data (push_bins 0 binSize maxVal \<lparr>labels = [], data = []\<rparr>)) = bin_count binSize maxVal"
  by (simp add: push_bins_data bin_count_def ceiling_divide_eq_div del: push_bins.simps)

lemma length_add_count: "length (add_count binSize entry xs) = length xs"
  by (simp add: add_count_def Let_def)

lemma length_fold_add_count: "length (fold (add_count binSize) rawData xs) = length xs"
  by (induction rawData arbitrary: xs) (simp_all add: length_add_count)

lemma sum_list_add_count:
  "sum_list (add_count binSize entry xs) =
   sum_list xs + (if 0 \<le> fst entry div binSize \<and> fst entry div binSize < int (length xs)
                  then snd entry else 0)"
  by (auto simp add: add_count_def Let_def sum_list_bump)


lemma sum_list_fold_add_count:
  "0 < binSize \<Longrightarrow>
   sum_list (fold (add_count binSize) rawData xs) =
   sum_list xs + counts_between 0 (binSize * int (length xs)) rawData"
proof (induction rawData arbitrary: xs)
  case Nil
  then show ?case by (simp add: counts_between_def)
next
  case (Cons entry rawData)
  show ?case
    using Cons.prems Cons.IH [of "add_count binSize entry xs"] in_bins_iff [of binSize "fst entry" "length xs"]
    by (cases entry) (auto simp add: sum_list_add_count length_add_count counts_between_def)
qed

lemma add_count_outside:
  "0 < binSize \<Longrightarrow> \<not> (0 \<le> fst entry \<and> fst entry < binSize * int (length xs)) \<Longrightarrow>
   add_count binSize entry xs = xs"
  using in_bins_iff [of binSize "fst entry" "length xs"]
  by (auto simp add: add_count_def Let_def)

lemma fold_add_count_filter:
  "0 < binSize \<Longrightarrow>
   fold (add_count binSize) (filter (\<lambda>(v, c). 0 \<le> v \<and> v < binSize * int (length xs)) rawData) xs =
   fold (add_count binSize) rawData xs"
proof (induction rawData arbitrary: xs)
  case Nil
  then show ?case by simp
next
  case (Cons entry rawData)
  show ?case
    using Cons.prems Cons.IH [of "add_count binSize entry xs"] add_count_outside [of binSize entry xs]
    by (cases entry) (auto simp add: length_add_count)
qed

lemma sum_replicate_zero: "sum_list (replicate n (0::int)) = 0"
  by (induction n) simp_all

subsection \<open>The reference vector\<close>

text \<open>
  C4.  With bin width 10 and upper bound 101, the input \<open>{5: 2, 15: 3, 95: 1}\<close> gives
  eleven bins in order, labelled \<open>0-9\<close> to \<open>100-109\<close>; the bin starting at 0 counts 2,
  the one starting at 10 counts 3, the one starting at 90 counts 1, all others count 0.
\<close>

theorem createHistogramData_reference:
  "createHistogramData [(5, 2), (15, 3), (95, 1)] 10 101 =
     \<lparr>labels = [''0-9'', ''10-19'', ''20-29'', ''30-39'', ''40-49'', ''50-59'',
                ''60-69'', ''70-79'', ''80-89'', ''90-99'', ''100-109''],
      data = [2, 3, 0, 0, 0, 0, 0, 0, 0, 1, 0]\<rparr> \<and>
   length (data (createHistogramData [(5, 2), (15, 3), (95, 1)] 10 101)) = bin_count 10 101 \<and>
   bin_count 10 101 = 11"
  by (simp add: createHistogramData_def add_count_def string_of_int_def digit_char_def
      bin_count_def)

subsection \<open>Which values are dropped\<close>

text \<open>
  What one entry, and what all entries, add to the bin at a given index, and the labels
  the loop over the bins pushes.
\<close>

lemma int_div_eq_iff:
  assumes "0 < (b::int)"
  shows "(v div b = j) = (b * j \<le> v \<and> v < b * (j + 1))"
proof -
  have "(v div b = j) = (\<not> v div b < j \<and> v div b < j + 1)" by auto
  also have "\<dots> = (\<not> v < b * j \<and> v < b * (j + 1))"
    using assms by (simp only: int_div_less_iff)
  finally show ?thesis by auto
qed

lemma nth_add_count:
  assumes "0 < binSize" and "j < length xs"
  shows "add_count binSize entry xs ! j =
     xs ! j + (if binSize * int j \<le> fst entry \<and> fst entry < binSize * (int j + 1)
               then snd entry else 0)"
proof -
  have eq: "(fst entry div binSize = int j) =
      (binSize * int j \<le> fst entry \<and> fst entry < binSize * (int j + 1))"
    using assms(1) by (rule int_div_eq_iff)
  show ?thesis
  proof (cases "fst entry div binSize = int j")
    case True
    then show ?thesis using assms(2) eq by (simp add: add_count_def Let_def)
  next
    case False
    then have out: "\<not> (binSize * int j \<le> fst entry \<and> fst entry < binSize * (int j + 1))"
      using eq by simp
    have "0 \<le> fst entry div binSize \<Longrightarrow> nat (fst entry div binSize) \<noteq> j"
      using False by auto
    then have "add_count binSize entry xs ! j = xs ! j"
      by (simp add: add_count_def Let_def)
    then show ?thesis using out by auto
  qed
qed

lemma nth_fold_add_count:
  assumes "0 < binSize"
  shows "j < length xs \<Longrightarrow>
     fold (add_count binSize) rawData xs ! j =
       xs ! j + counts_between (binSize * int j) (binSize * (int j + 1)) rawData"
proof (induction rawData arbitrary: xs)
  case Nil
  then show ?case by (simp add: counts_between_def)
next
  case (Cons entry rawData)
  have "j < length (add_count binSize entry xs)"
    using Cons.prems by (simp add: length_add_count)
  then show ?case
    using Cons.IH [of "add_count binSize entry xs"] nth_add_count [OF assms Cons.prems, of entry]
    by (cases entry) (simp add: counts_between_def)
qed

lemma push_bins_labels:
  "0 < binSize \<Longrightarrow>
   labels (push_bins i binSize maxVal h) =
     labels h @ map (bin_label binSize i) [0..<nat (- ((i - maxVal) div binSize))]"
proof (induction i binSize maxVal h rule: push_bins.induct)
  case (1 i binSize maxVal h)
  show ?case
  proof (cases "i < maxVal")
    case True
    have "i + binSize - maxVal = (i - maxVal) + binSize" by simp
    then have shift: "(i + binSize - maxVal) div binSize = (i - maxVal) div binSize + 1"
      using "1.prems" by (metis div_add_self2 less_irrefl)
    have neg: "(i - maxVal) div binSize < 0"
      using True "1.prems" by (simp add: pos_imp_zdiv_neg_iff)
    have cnt: "nat (- ((i - maxVal) div binSize)) = Suc (nat (- ((i + binSize - maxVal) div binSize)))"
      using shift neg by simp
    have lbl: "bin_label binSize (i + binSize) k = bin_label binSize i (Suc k)" for k
      by (simp add: bin_label_def algebra_simps)
    have unroll: "map (bin_label binSize i) [0..<Suc n] =
          bin_label binSize i 0 # map (bin_label binSize (i + binSize)) [0..<n]" for n
      by (simp add: lbl upt_conv_Cons map_Suc_upt [symmetric] del: upt_Suc)
    let ?h = "\<lparr>labels = labels h @ [bin_label binSize i 0], data = data h @ [0]\<rparr>"
    have step: "push_bins i binSize maxVal h = push_bins (i + binSize) binSize maxVal ?h"
      using True "1.prems" by (simp add: bin_label_def)
    have "labels (push_bins (i + binSize) binSize maxVal ?h) =
          labels ?h @ map (bin_label binSize (i + binSize))
            [0..<nat (- ((i + binSize - maxVal) div binSize))]"
      using True "1.prems" "1.IH" by (simp add: bin_label_def del: push_bins.simps)
    then show ?thesis
      unfolding step cnt unroll by simp
  next
    case False
    then have "0 \<le> (i - maxVal) div binSize"
      using "1.prems" by (simp add: pos_imp_zdiv_nonneg_iff)
    then show ?thesis using False by simp
  qed
qed

lemma last_bin_range:
  assumes "0 < binSize"
  shows "maxVal \<le> binSize * int (bin_count binSize maxVal) \<and>
         (0 < maxVal \<longrightarrow> binSize * (int (bin_count binSize maxVal) - 1) < maxVal)"
proof -
  have c: "int (bin_count binSize maxVal) = max 0 (- ((- maxVal) div binSize))"
    by (simp add: bin_count_def ceiling_divide_eq_div)
  have "\<not> (- maxVal) div binSize < - (- ((- maxVal) div binSize))" by simp
  then have up: "binSize * (- ((- maxVal) div binSize)) \<ge> maxVal"
    using int_div_less_iff [OF assms, of "- maxVal" "(- maxVal) div binSize"]
          int_div_less_iff [OF assms, of "- maxVal" "(- maxVal) div binSize + 1"]
    by (simp add: algebra_simps)
  have lo: "binSize * (- ((- maxVal) div binSize) - 1) < maxVal"
    using int_div_less_iff [OF assms, of "- maxVal" "(- maxVal) div binSize + 1"]
    by (simp add: algebra_simps)
  have pos: "0 < maxVal \<Longrightarrow> 0 < - ((- maxVal) div binSize)"
    using assms by (simp add: pos_imp_zdiv_neg_iff)
  have "maxVal \<le> binSize * int (bin_count binSize maxVal)"
  proof (cases "0 \<le> - ((- maxVal) div binSize)")
    case True
    then show ?thesis using up c by simp
  next
    case False
    then have "0 < (- maxVal) div binSize" by simp
    then have "0 < - maxVal" using assms by (simp add: pos_imp_zdiv_pos_iff)
    then show ?thesis using c False by simp
  qed
  moreover have "0 < maxVal \<longrightarrow> binSize * (int (bin_count binSize maxVal) - 1) < maxVal"
    using lo pos c by auto
  ultimately show ?thesis by simp
qed

text \<open>
  C8, as the code has it.  For a positive bin width there are \<open>ceil(maxVal / binSize)\<close>
  bins; the bin at index \<open>j\<close> is labelled with the range from \<open>binSize * j\<close> to
  \<open>binSize * j + binSize - 1\<close> and holds the sum of the counts of the entries whose
  value lies in that range, and of no other entry.  The ranges cover the values from 0 up
  to (excluding) the bin width times the number of bins, which is the upper bound rounded
  up to a multiple of the bin width: the upper bound is at most that, and, when it is
  positive, above the lower end of the last bin, so a value from the upper bound up to
  the end of the last bin is counted there.  Entries outside the covered range leave the
  histogram as it is, so the bin counts add up to the counts of the entries inside it.
\<close>

theorem createHistogramData_counts:
  assumes "0 < binSize"
  shows "length (data (createHistogramData rawData binSize maxVal)) = bin_count binSize maxVal \<and>
         labels (createHistogramData rawData binSize maxVal) =
           map (bin_label binSize 0) [0..<bin_count binSize maxVal] \<and>
         (\<forall>j < bin_count binSize maxVal.
            data (createHistogramData rawData binSize maxVal) ! j =
              counts_between (binSize * int j) (binSize * (int j + 1)) rawData) \<and>
         maxVal \<le> binSize * int (bin_count binSize maxVal) \<and>
         (0 < maxVal \<longrightarrow> binSize * (int (bin_count binSize maxVal) - 1) < maxVal) \<and>
         sum_list (data (createHistogramData rawData binSize maxVal)) =
           counts_between 0 (binSize * int (bin_count binSize maxVal)) rawData \<and>
         createHistogramData
           (filter (\<lambda>(v, c). 0 \<le> v \<and> v < binSize * int (bin_count binSize maxVal)) rawData)
           binSize maxVal =
         createHistogramData rawData binSize maxVal"
proof -
  let ?h = "push_bins 0 binSize maxVal \<lparr>labels = [], data = []\<rparr>"
  have len: "length (data ?h) = bin_count binSize maxVal"
    using assms by (rule push_bins_length)
  have zeros: "data ?h = replicate (bin_count binSize maxVal) 0"
    using assms
    by (simp add: push_bins_data bin_count_def ceiling_divide_eq_div del: push_bins.simps)
  have zero: "sum_list (data ?h) = 0"
    using assms by (simp add: push_bins_data sum_replicate_zero del: push_bins.simps)
  have c1: "length (data (createHistogramData rawData binSize maxVal)) = bin_count binSize maxVal"
    using assms len
    by (simp add: createHistogramData_def Let_def length_fold_add_count del: push_bins.simps)
  have c2: "labels (createHistogramData rawData binSize maxVal) =
           map (bin_label binSize 0) [0..<bin_count binSize maxVal]"
    using assms
    by (simp add: createHistogramData_def Let_def push_bins_labels bin_count_def
        ceiling_divide_eq_div del: push_bins.simps)
  have c3: "\<forall>j < bin_count binSize maxVal.
            data (createHistogramData rawData binSize maxVal) ! j =
              counts_between (binSize * int j) (binSize * (int j + 1)) rawData"
  proof (intro allI impI)
    fix j
    assume j: "j < bin_count binSize maxVal"
    then have "j < length (data ?h)" using len by simp
    then have "fold (add_count binSize) rawData (data ?h) ! j =
        data ?h ! j + counts_between (binSize * int j) (binSize * (int j + 1)) rawData"
      by (rule nth_fold_add_count [OF assms])
    moreover have "data ?h ! j = 0" using j zeros by simp
    ultimately show "data (createHistogramData rawData binSize maxVal) ! j =
              counts_between (binSize * int j) (binSize * (int j + 1)) rawData"
      using assms by (simp add: createHistogramData_def Let_def del: push_bins.simps)
  qed
  have c45: "maxVal \<le> binSize * int (bin_count binSize maxVal) \<and>
         (0 < maxVal \<longrightarrow> binSize * (int (bin_count binSize maxVal) - 1) < maxVal)"
    using assms by (rule last_bin_range)
  have c6: "sum_list (data (createHistogramData rawData binSize maxVal)) =
         counts_between 0 (binSize * int (bin_count binSize maxVal)) rawData"
    using assms len zero sum_list_fold_add_count [OF assms, of rawData "data ?h"]
    by (simp add: createHistogramData_def Let_def del: push_bins.simps)
  have c7: "createHistogramData
           (filter (\<lambda>(v, c). 0 \<le> v \<and> v < binSize * int (bin_count binSize maxVal)) rawData)
           binSize maxVal =
         createHistogramData rawData binSize maxVal"
    using assms len fold_add_count_filter [OF assms, of "data ?h" rawData]
    by (simp add: createHistogramData_def Let_def del: push_bins.simps)
  from c1 c2 c3 c45 c6 c7 show ?thesis by (intro conjI) simp_all
qed

text \<open>
  An instance: of the values 5, 100, 105, 110 and -3, the last two are dropped, and 100
  and 105 are counted in the last bin, \<open>100-109\<close>.
\<close>

theorem createHistogramData_counts_witness:
  "(0::int) < 10 \<and>
   length (data (createHistogramData [(5, 2), (100, 1), (105, 4), (110, 7), (- 3, 9)] 10 101)) = 11 \<and>
   labels (createHistogramData [(5, 2), (100, 1), (105, 4), (110, 7), (- 3, 9)] 10 101) ! 10 =
     ''100-109'' \<and>
   data (createHistogramData [(5, 2), (100, 1), (105, 4), (110, 7), (- 3, 9)] 10 101) ! 10 = 5 \<and>
   data (createHistogramData [(5, 2), (100, 1), (105, 4), (110, 7), (- 3, 9)] 10 101) ! 0 = 2 \<and>
   sum_list (data (createHistogramData [(5, 2), (100, 1), (105, 4), (110, 7), (- 3, 9)] 10 101)) = 7 \<and>
   createHistogramData [(5, 2), (100, 1), (105, 4)] 10 101 =
     createHistogramData [(5, 2), (100, 1), (105, 4), (110, 7), (- 3, 9)] 10 101"
  using createHistogramData_counts [of 10 "[(5, 2), (100, 1), (105, 4), (110, 7), (- 3, 9)]" 101]
  by (simp add: bin_count_def counts_between_def bin_label_def string_of_int_def digit_char_def)

text \<open>
  The claim as the specification words it fails: the value 105 is not below the upper
  bound 101, yet it is counted in the bin \<open>100-109\<close>, and the bin counts then add up to
  more than the counts of the values below the bound.
\<close>

theorem createHistogramData_counts_above_bound:
  "data (createHistogramData [(105, 1)] 10 101) ! 10 = 1 \<and>
   sum_list (data (createHistogramData [(105, 1)] 10 101)) \<noteq> counts_below 101 [(105, 1)]"
  by (simp add: createHistogramData_def add_count_def counts_below_def)

section \<open>Properties of the colouring\<close>

text \<open>
  The colouring of \<open>drawDistributionChart\<close> is the one the specification describes: it
  compares the lower bound of the bin with the two thresholds, in the direction given by
  \<open>lowIsBad\<close>.
\<close>

lemma drawDistributionChart_color_spec:
  "drawDistributionChart_color True (Some critical) (Some warning) (Some lowerBound) =
     (if lowerBound \<le> critical then criticalColor
      else if lowerBound \<le> warning then warningColor else okColor) \<and>
   drawDistributionChart_color False (Some critical) (Some warning) (Some lowerBound) =
     (if lowerBound \<ge> critical then criticalColor
      else if lowerBound \<ge> warning then warningColor else okColor) \<and>
   drawDistributionChart_color True (Some 10) (Some 30) (Some 5) = criticalColor \<and>
   drawDistributionChart_color True (Some 10) (Some 30) (Some 20) = warningColor \<and>
   drawDistributionChart_color True (Some 10) (Some 30) (Some 50) = okColor"
  by (simp add: drawDistributionChart_color_def js_le_def js_ge_def)

text \<open>
  C3 does not hold of the colouring applied to the bins of \<open>createHistogramData\<close>.  That
  code compares the label itself with the thresholds; a label such as \<open>0-9\<close> is not the
  notation of a number, the comparison is false whatever the thresholds are, and every bar
  is coloured as good.  With the thresholds 10 and 30 the bins starting at 0 and at 20
  should be critical and warning, as \<open>drawDistributionChart\<close> has them.
\<close>

theorem energy_backgroundColor_ignores_thresholds:
  "labels (createHistogramData [(5, 2), (25, 1), (95, 1)] 10 101) =
     [''0-9'', ''10-19'', ''20-29'', ''30-39'', ''40-49'', ''50-59'',
      ''60-69'', ''70-79'', ''80-89'', ''90-99'', ''100-109''] \<and>
   energy_backgroundColor (Some 10) (Some 30) ''0-9'' = good \<and>
   energy_backgroundColor (Some 10) (Some 30) ''20-29'' = good \<and>
   map (energy_backgroundColor (Some 10) (Some 30))
     (labels (createHistogramData [(5, 2), (25, 1), (95, 1)] 10 101)) =
     [good, good, good, good, good, good, good, good, good, good, good] \<and>
   drawDistributionChart_color True (Some 10) (Some 30) (Some 0) = criticalColor \<and>
   drawDistributionChart_color True (Some 10) (Some 30) (Some 20) = warningColor"
  by (simp add: createHistogramData_def string_of_int_def digit_char_def
      energy_backgroundColor_def js_le_def js_StringToNumber_def is_digit_def
      drawDistributionChart_color_def)

end
